theory Spec2Isabelle
  imports Complex_Main "HOL-Library.Multiset" "HOL-Library.Product_Lexorder"
begin

section \<open>Python values reaching the layout core\<close>

text \<open>
  The geometry fields of a line are read with \<^verbatim>\<open>getattr(r, name, None)\<close> and are
  untyped in the source (\<^verbatim>\<open>r: Any\<close>).  A field value is modelled as one of: \<^verbatim>\<open>None\<close>, a
  bool, an int (unbounded), a float, a str, or a list/tuple (the source treats both
  alike: \<^verbatim>\<open>isinstance(obj, (list, tuple))\<close>).

  A finite float is modelled as the rational number it denotes.  Comparison, \<^verbatim>\<open>min\<close>,
  \<^verbatim>\<open>max\<close> and \<^verbatim>\<open>int()\<close> of floats are exact on these values.  The special values nan,
  inf and -inf are kept, since \<^verbatim>\<open>int()\<close> raises on them and comparisons with nan are
  false.  Float arithmetic (the centers, percentiles and means of the sorter, the anchors
  of the grid builder) is modelled by exact rational arithmetic: binary64 rounding of
  sums, products and quotients is not modelled.
\<close>

datatype pyerr = ValueError | OverflowError | TypeError | IndexError | ZeroDivisionError

text \<open>
  A raised exception is the \<open>Inl\<close> result of a computation; \<open>ebind\<close> runs the next
  statement on the value of the previous one and passes an exception on.
\<close>

definition ebind :: "'e + 'a \<Rightarrow> ('a \<Rightarrow> 'e + 'b) \<Rightarrow> 'e + 'b" where
  "ebind m f = (case m of Inl e \<Rightarrow> Inl e | Inr v \<Rightarrow> f v)"

datatype pyfloat = Fin rat | PosInf | NegInf | NaN

datatype pyval =
    PNone
  | PBool bool
  | PInt int
  | PFloat pyfloat
  | PStr string
  | PSeq "pyval list"

text \<open>
  Python's built-in conversions that are not part of the repository are parameters of
  the model: the parsers \<^verbatim>\<open>float(s)\<close> and \<^verbatim>\<open>int(s)\<close> on a str (\<open>None\<close>: the parser
  raises ValueError), and \<^verbatim>\<open>float(n)\<close> on an int, which rounds to the nearest binary64
  value beyond 2^53 and raises OverflowError on an int too large for a float (\<open>None\<close>).
\<close>

record builtins =
  float_of_str :: "string \<Rightarrow> pyfloat option"
  int_of_str :: "string \<Rightarrow> int option"
  float_of_int :: "int \<Rightarrow> pyfloat option"

text \<open>Truth value of an object, as \<^verbatim>\<open>if obj:\<close> tests it.\<close>

fun truthy :: "pyval \<Rightarrow> bool" where
  "truthy PNone = False"
| "truthy (PBool b) = b"
| "truthy (PInt n) = (n \<noteq> 0)"
| "truthy (PFloat f) = (f \<noteq> Fin 0)"
| "truthy (PStr s) = (s \<noteq> [])"
| "truthy (PSeq vs) = (vs \<noteq> [])"

text \<open>\<^verbatim>\<open>isinstance(v, (list, tuple))\<close> and \<^verbatim>\<open>isinstance(v, (int, float))\<close> (bool is an int).\<close>

fun is_seq :: "pyval \<Rightarrow> bool" where
  "is_seq (PSeq vs) = True"
| "is_seq v = False"

fun is_number :: "pyval \<Rightarrow> bool" where
  "is_number (PBool b) = True"
| "is_number (PInt n) = True"
| "is_number (PFloat f) = True"
| "is_number v = False"

text \<open>Iteration, as tuple unpacking uses it: a str yields its characters; \<open>None\<close> is TypeError.\<close>

fun py_iter :: "pyval \<Rightarrow> pyval list option" where
  "py_iter (PSeq vs) = Some vs"
| "py_iter (PStr s) = Some (map (\<lambda>c. PStr [c]) s)"
| "py_iter v = None"

text \<open>\<^verbatim>\<open>int(x)\<close> on a float truncates toward zero; it raises on nan and on the infinities.\<close>

definition trunc :: "rat \<Rightarrow> int" where
  "trunc r = (if 0 \<le> r then \<lfloor>r\<rfloor> else \<lceil>r\<rceil>)"

fun int_of_float :: "pyfloat \<Rightarrow> pyerr + int" where
  "int_of_float (Fin r) = Inr (trunc r)"
| "int_of_float NaN = Inl ValueError"
| "int_of_float PosInf = Inl OverflowError"
| "int_of_float NegInf = Inl OverflowError"

fun py_int :: "builtins \<Rightarrow> pyval \<Rightarrow> pyerr + int" where
  "py_int B (PBool b) = Inr (if b then 1 else 0)"
| "py_int B (PInt n) = Inr n"
| "py_int B (PFloat f) = int_of_float f"
| "py_int B (PStr s) = (case int_of_str B s of Some n \<Rightarrow> Inr n | None \<Rightarrow> Inl ValueError)"
| "py_int B PNone = Inl TypeError"
| "py_int B (PSeq vs) = Inl TypeError"

fun py_float :: "builtins \<Rightarrow> pyval \<Rightarrow> pyerr + pyfloat" where
  "py_float B (PBool b) = Inr (Fin (if b then 1 else 0))"
| "py_float B (PInt n) = (case float_of_int B n of Some f \<Rightarrow> Inr f | None \<Rightarrow> Inl OverflowError)"
| "py_float B (PFloat f) = Inr f"
| "py_float B (PStr s) = (case float_of_str B s of Some f \<Rightarrow> Inr f | None \<Rightarrow> Inl ValueError)"
| "py_float B PNone = Inl TypeError"
| "py_float B (PSeq vs) = Inl TypeError"

text \<open>Float comparison \<^verbatim>\<open>a < b\<close>: false whenever an operand is nan.\<close>

fun float_lt :: "pyfloat \<Rightarrow> pyfloat \<Rightarrow> bool" where
  "float_lt NaN b = False"
| "float_lt a NaN = False"
| "float_lt (Fin a) (Fin b) = (a < b)"
| "float_lt (Fin a) PosInf = True"
| "float_lt (Fin a) NegInf = False"
| "float_lt PosInf b = False"
| "float_lt NegInf NegInf = False"
| "float_lt NegInf b = True"

text \<open>
  \<^verbatim>\<open>min(xs)\<close> and \<^verbatim>\<open>max(xs)\<close> on a non-empty list: the first element is the candidate and a
  later element replaces it only when it compares strictly smaller (larger).  The
  callers test the list for emptiness first; on the empty list Python raises ValueError.
\<close>

fun py_min :: "pyfloat list \<Rightarrow> pyerr + pyfloat" where
  "py_min [] = Inl ValueError"
| "py_min (x # xs) = Inr (foldl (\<lambda>m y. if float_lt y m then y else m) x xs)"

fun py_max :: "pyfloat list \<Rightarrow> pyerr + pyfloat" where
  "py_max [] = Inl ValueError"
| "py_max (x # xs) = Inr (foldl (\<lambda>m y. if float_lt m y then y else m) x xs)"

section \<open>Geometry normalizer\<close>

type_synonym point = "pyfloat \<times> pyfloat"
type_synonym bbox_t = "int \<times> int \<times> int \<times> int"

text \<open>
  One element of the comprehension \<^verbatim>\<open>[(float(x), float(y)) for x, y in obj]\<close>: \<open>None\<close>
  when unpacking or a conversion raises.
\<close>

fun coerce_pair :: "builtins \<Rightarrow> pyval \<Rightarrow> point option" where
  "coerce_pair B v =
     (case py_iter v of
        Some [x, y] \<Rightarrow>
          (case py_float B x of
             Inl e \<Rightarrow> None
           | Inr a \<Rightarrow> (case py_float B y of Inl e \<Rightarrow> None | Inr b \<Rightarrow> Some (a, b)))
      | _ \<Rightarrow> None)"

text \<open>
  The whole comprehension inside \<^verbatim>\<open>try ... except Exception: return []\<close>: one failing
  element discards every point.
\<close>

fun coerce_flat :: "builtins \<Rightarrow> pyval list \<Rightarrow> point list" where
  "coerce_flat B vs =
     (if \<forall>v \<in> set vs. coerce_pair B v \<noteq> None then map (\<lambda>v. the (coerce_pair B v)) vs else [])"

text \<open>The two shape tests \<^verbatim>\<open>_coerce_points\<close> makes on the first element.\<close>

fun is_point_shape :: "pyval \<Rightarrow> bool" where
  "is_point_shape (PSeq [a, b]) = is_number a"
| "is_point_shape v = False"

fun is_pair_seq :: "pyval \<Rightarrow> bool" where
  "is_pair_seq (PSeq [a, b]) = True"
| "is_pair_seq v = False"

fun is_contour_shape :: "pyval \<Rightarrow> bool" where
  "is_contour_shape (PSeq (c # cs)) = is_pair_seq c"
| "is_contour_shape v = False"

fun coerce_points :: "builtins \<Rightarrow> pyval \<Rightarrow> point list" where
  "coerce_points B (PSeq []) = []"
| "coerce_points B (PSeq (first # rest)) =
     (if is_point_shape first then coerce_flat B (first # rest)
      else if is_contour_shape first then concat (map (coerce_points B) (first # rest))
      else [])"
| "coerce_points B v = []"

fun bbox_from_points :: "point list \<Rightarrow> int \<Rightarrow> pyerr + bbox_t option" where
  "bbox_from_points [] pad = Inr None"
| "bbox_from_points (p # ps) pad =
     (let xs = map fst (p # ps); ys = map snd (p # ps) in
      ebind (py_min xs) (\<lambda>mx. ebind (int_of_float mx) (\<lambda>ix0.
      ebind (py_min ys) (\<lambda>my. ebind (int_of_float my) (\<lambda>iy0.
      ebind (py_max xs) (\<lambda>Mx. ebind (int_of_float Mx) (\<lambda>ix1.
      ebind (py_max ys) (\<lambda>My. ebind (int_of_float My) (\<lambda>iy1.
        (let x0 = ix0 - pad; y0 = iy0 - pad; x1 = ix1 + pad; y1 = iy1 + pad in
         if x1 \<le> x0 \<or> y1 \<le> y0 then Inr None else Inr (Some (x0, y0, x1, y1))))))))))))"

text \<open>
  A line as the recognizer hands it over.  A missing attribute reads as \<open>PNone\<close>
  (\<^verbatim>\<open>getattr(r, name, None)\<close>); the prediction is \<open>None\<close> or the recognized text.
\<close>

record kr_record =
  bbox :: pyval
  boundary :: pyval
  polygon :: pyval
  baseline :: pyval
  prediction :: "string option"

text \<open>
  The explicit box: the body of the \<^verbatim>\<open>try\<close> block of \<^verbatim>\<open>record_bbox\<close>; \<open>None\<close> when it
  raises (\<^verbatim>\<open>except Exception: pass\<close>) or when the coerced box is degenerate.
\<close>

fun explicit_bbox :: "builtins \<Rightarrow> pyval \<Rightarrow> bbox_t option" where
  "explicit_bbox B v =
     (case py_iter v of
        Some [a, b, c, d] \<Rightarrow>
          (case (py_int B a, py_int B b, py_int B c, py_int B d) of
             (Inr x0, Inr y0, Inr x1, Inr y1) \<Rightarrow>
               if x1 > x0 \<and> y1 > y0 then Some (x0, y0, x1, y1) else None
           | _ \<Rightarrow> None)
      | _ \<Rightarrow> None)"

text \<open>One round of the loop over the attributes \<^verbatim>\<open>("boundary", "polygon")\<close>.\<close>

fun polygon_bbox :: "builtins \<Rightarrow> pyval \<Rightarrow> pyerr + bbox_t option" where
  "polygon_bbox B v =
     (if truthy v then bbox_from_points (coerce_points B v) 2 else Inr None)"

fun baseline_bbox :: "builtins \<Rightarrow> pyval \<Rightarrow> pyerr + bbox_t option" where
  "baseline_bbox B v =
     (if truthy v then
        (case bbox_from_points (coerce_points B v) 2 of
           Inl e \<Rightarrow> Inl e
         | Inr None \<Rightarrow> Inr None
         | Inr (Some (x0, y0, x1, y1)) \<Rightarrow> Inr (Some (x0, y0 - 14, x1, y1 + 14)))
      else Inr None)"

definition record_bbox :: "builtins \<Rightarrow> kr_record \<Rightarrow> pyerr + bbox_t option" where
  "record_bbox B r =
     (case (if truthy (bbox r) then explicit_bbox B (bbox r) else None) of
        Some bb \<Rightarrow> Inr (Some bb)
      | None \<Rightarrow>
          (case polygon_bbox B (boundary r) of
             Inl e \<Rightarrow> Inl e
           | Inr (Some bb) \<Rightarrow> Inr (Some bb)
           | Inr None \<Rightarrow>
               (case polygon_bbox B (polygon r) of
                  Inl e \<Rightarrow> Inl e
                | Inr (Some bb) \<Rightarrow> Inr (Some bb)
                | Inr None \<Rightarrow> baseline_bbox B (baseline r))))"

section \<open>Reading-order sorter\<close>

text \<open>The constants of \<^verbatim>\<open>READING_MODES\<close>; a reading mode is a plain int in the source.\<close>

definition TB_LR :: int where "TB_LR = 0"
definition TB_RL :: int where "TB_RL = 1"
definition BT_LR :: int where "BT_LR = 2"
definition BT_RL :: int where "BT_RL = 3"

text \<open>List indexing \<^verbatim>\<open>xs[i]\<close>: a negative index counts from the end, out of range raises.\<close>

definition py_index :: "'a list \<Rightarrow> int \<Rightarrow> pyerr + 'a" where
  "py_index xs i =
     (if 0 \<le> i \<and> i < int (length xs) then Inr (xs ! nat i)
      else if i < 0 \<and> - int (length xs) \<le> i then Inr (xs ! nat (int (length xs) + i))
      else Inl IndexError)"

text \<open>True division by a length.\<close>

definition py_truediv :: "rat \<Rightarrow> nat \<Rightarrow> pyerr + rat" where
  "py_truediv a n = (if n = 0 then Inl ZeroDivisionError else Inr (a / of_nat n))"

text \<open>The local function \<^verbatim>\<open>q(values, p)\<close>: the linearly interpolated percentile.\<close>

definition q :: "rat list \<Rightarrow> rat \<Rightarrow> pyerr + rat option" where
  "q vs p =
     (if vs = [] then Inr None
      else
        (let vals = sort vs;
             k = (of_nat (length vals) - 1) * p;
             f = trunc k;
             c = min (f + 1) (int (length vals) - 1)
         in if f = c then ebind (py_index vals f) (\<lambda>v. Inr (Some v))
            else ebind (py_index vals f) (\<lambda>vf.
                 ebind (py_index vals c) (\<lambda>vc.
                   Inr (Some (vf + (vc - vf) * (k - of_int f)))))))"

fun bb_center_x :: "bbox_t \<Rightarrow> rat" where
  "bb_center_x (x0, y0, x1, y1) = of_int (x0 + x1) / 2"

fun bb_center_y :: "bbox_t \<Rightarrow> rat" where
  "bb_center_y (x0, y0, x1, y1) = of_int (y0 + y1) / 2"

fun bb_h :: "bbox_t \<Rightarrow> int" where
  "bb_h (x0, y0, x1, y1) = y1 - y0"

fun bb_w :: "bbox_t \<Rightarrow> int" where
  "bb_w (x0, y0, x1, y1) = x1 - x0"

definition is_fullwidth :: "int \<Rightarrow> bbox_t \<Rightarrow> bool" where
  "is_fullwidth image_width bb = (bb_w bb \<ge> trunc (of_int image_width * (3 / 4)))"

text \<open>The first loop: the lines that have a box, each with its box, in input order.\<close>

fun collect_items :: "builtins \<Rightarrow> kr_record list \<Rightarrow> pyerr + (kr_record \<times> bbox_t) list" where
  "collect_items B [] = Inr []"
| "collect_items B (r # rs) =
     ebind (record_bbox B r) (\<lambda>bb.
     ebind (collect_items B rs) (\<lambda>rest.
       Inr (case bb of Some b \<Rightarrow> (r, b) # rest | None \<Rightarrow> rest)))"

text \<open>
  The key of the plain sort: \<^verbatim>\<open>(x[1][1] if not reverse_y else -x[1][1],
  x[1][0] if not reverse_x else -x[1][0])\<close>.  Tuples compare lexicographically and
  \<^verbatim>\<open>sorted\<close> is stable, as \<open>sort_key\<close> is.
\<close>

fun yx_key :: "bool \<Rightarrow> bool \<Rightarrow> kr_record \<times> bbox_t \<Rightarrow> int \<times> int" where
  "yx_key reverse_y reverse_x (r, (x0, y0, x1, y1)) =
     (if \<not> reverse_y then y0 else - y0, if \<not> reverse_x then x0 else - x0)"

definition plain_sort :: "(kr_record \<times> bbox_t) list \<Rightarrow> kr_record list" where
  "plain_sort items = map fst (sort_key (yx_key False False) items)"

text \<open>One of the 8 rounds of nearest-center reassignment and mean update.\<close>

definition kmeans_step :: "rat list \<Rightarrow> rat \<times> rat \<Rightarrow> pyerr + rat \<times> rat" where
  "kmeans_step xs c =
     (let c1 = fst c; c2 = snd c;
          g1 = filter (\<lambda>x. \<bar>x - c1\<bar> \<le> \<bar>x - c2\<bar>) xs;
          g2 = filter (\<lambda>x. \<not> \<bar>x - c1\<bar> \<le> \<bar>x - c2\<bar>) xs
      in ebind (if g1 \<noteq> [] then py_truediv (sum_list g1) (length g1) else Inr c1) (\<lambda>c1'.
         ebind (if g2 \<noteq> [] then py_truediv (sum_list g2) (length g2) else Inr c2) (\<lambda>c2'.
           Inr (c1', c2'))))"

fun kmeans_loop :: "nat \<Rightarrow> rat list \<Rightarrow> rat \<times> rat \<Rightarrow> pyerr + rat \<times> rat" where
  "kmeans_loop 0 xs c = Inr c"
| "kmeans_loop (Suc n) xs c = ebind (kmeans_step xs c) (kmeans_loop n xs)"

text \<open>Band of a line: header, footer or midband.\<close>

datatype band = Header | Footer | Midband

fun band_of :: "rat \<Rightarrow> rat \<Rightarrow> bbox_t \<Rightarrow> band" where
  "band_of body_top body_bot (x0, y0, x1, y1) =
     (if y1 - y0 < 14 then Midband
      else if of_int y1 < body_top - 10 then Header
      else if of_int y0 > body_bot + 10 then Footer
      else Midband)"

text \<open>The local function \<^verbatim>\<open>sort_key(item)\<close>.\<close>

fun sort_key_item :: "bool \<Rightarrow> bool \<Rightarrow> kr_record \<times> bbox_t \<Rightarrow> rat \<times> int" where
  "sort_key_item rev_y rev_x (r, bb) =
     (let ky = bb_center_y bb; kx = fst bb in
      (if rev_y then - ky else ky, if rev_x then - kx else kx))"

definition in_left_col :: "int \<Rightarrow> rat \<Rightarrow> rat \<Rightarrow> bbox_t \<Rightarrow> bool" where
  "in_left_col image_width c1 c2 bb =
     (if is_fullwidth image_width bb then True
      else \<bar>bb_center_x bb - c1\<bar> \<le> \<bar>bb_center_x bb - c2\<bar>)"

text \<open>
  The part of \<^verbatim>\<open>sort_records_reading_order\<close> after the two centers are settled
  (source lines 676 to 737): body extent, bands, columns and assembly.
\<close>

definition band_order ::
  "(kr_record \<times> bbox_t) list \<Rightarrow> (kr_record \<times> bbox_t) list \<Rightarrow> int \<Rightarrow> int \<Rightarrow> rat \<Rightarrow> rat
     \<Rightarrow> pyerr + kr_record list" where
  "band_order items body_candidates image_width reading_mode c1 c2 =
     (let ys_top = map (\<lambda>(r, (x0, y0, x1, y1)). of_int y0) body_candidates;
          ys_bot = map (\<lambda>(r, (x0, y0, x1, y1)). of_int y1) body_candidates
      in ebind (q ys_top (8 / 100)) (\<lambda>body_top_opt.
         ebind (q ys_bot (92 / 100)) (\<lambda>body_bot_opt.
           (case (body_top_opt, body_bot_opt) of
              (Some body_top, Some body_bot) \<Rightarrow>
                (let header = filter (\<lambda>(r, bb). band_of body_top body_bot bb = Header) items;
                     footer = filter (\<lambda>(r, bb). band_of body_top body_bot bb = Footer) items;
                     midband = filter (\<lambda>(r, bb). band_of body_top body_bot bb = Midband) items;
                     rev_y = (reading_mode = BT_LR \<or> reading_mode = BT_RL);
                     rev_x = (reading_mode = TB_RL \<or> reading_mode = BT_RL);
                     header_sorted = sort_key (sort_key_item rev_y rev_x) header;
                     footer_sorted = sort_key (sort_key_item rev_y rev_x) footer;
                     left_col = filter (\<lambda>(r, bb). in_left_col image_width c1 c2 bb) midband;
                     right_col = filter (\<lambda>(r, bb). \<not> in_left_col image_width c1 c2 bb) midband;
                     left_sorted = sort_key (sort_key_item rev_y rev_x) left_col;
                     right_sorted = sort_key (sort_key_item rev_y rev_x) right_col
                 in Inr
                   (if reading_mode = TB_LR then
                      map fst header_sorted @ map fst left_sorted @
                      map fst right_sorted @ map fst footer_sorted
                    else if reading_mode = TB_RL then
                      map fst header_sorted @ map fst right_sorted @
                      map fst left_sorted @ map fst footer_sorted
                    else if reading_mode = BT_LR then
                      map fst footer_sorted @ map fst left_sorted @
                      map fst right_sorted @ map fst header_sorted
                    else
                      map fst footer_sorted @ map fst right_sorted @
                      map fst left_sorted @ map fst header_sorted))
            | _ \<Rightarrow> Inr (plain_sort items)))))"

text \<open>
  Source lines 656 to 674: the two seeds, the 8 rounds, the swap that puts the lower
  center first and the test of the distance between the centers.
\<close>

definition column_order ::
  "(kr_record \<times> bbox_t) list \<Rightarrow> (kr_record \<times> bbox_t) list \<Rightarrow> int \<Rightarrow> int
     \<Rightarrow> pyerr + kr_record list" where
  "column_order items body_candidates image_width reading_mode =
     (let xs = map (\<lambda>(r, bb). bb_center_x bb) body_candidates in
      ebind (q xs (1 / 4)) (\<lambda>c1_opt.
      ebind (q xs (3 / 4)) (\<lambda>c2_opt.
        (case (c1_opt, c2_opt) of
           (Some s1, Some s2) \<Rightarrow>
             ebind (kmeans_loop 8 xs (s1, s2)) (\<lambda>(k1, k2).
               (let c1 = (if k1 > k2 then k2 else k1);
                    c2 = (if k1 > k2 then k1 else k2)
                in if \<bar>c2 - c1\<bar> < of_int image_width * (18 / 100)
                   then Inr (plain_sort items)
                   else band_order items body_candidates image_width reading_mode c1 c2))
         | _ \<Rightarrow> Inr (plain_sort items)))))"

definition sort_records_reading_order ::
  "builtins \<Rightarrow> kr_record list \<Rightarrow> int \<Rightarrow> int \<Rightarrow> pyerr + kr_record list" where
  "sort_records_reading_order B records image_width reading_mode =
     ebind (collect_items B records) (\<lambda>items.
       if items = [] then Inr records
       else
         (let body_candidates =
                filter (\<lambda>(r, bb). bb_h bb \<ge> 14 \<and> \<not> is_fullwidth image_width bb) items
          in if length body_candidates < 6 then
               (let reverse_y = (reading_mode div 2 = 1);
                    reverse_x = (reading_mode mod 2 = 1)
                in Inr (map fst (sort_key (yx_key reverse_y reverse_x) items)))
             else column_order items body_candidates image_width reading_mode))"

section \<open>Record views and the wide-line split\<close>

text \<open>The class \<^verbatim>\<open>RecordView\<close>: index, text and optional box of an output line.\<close>

record record_view =
  idx :: int
  rv_text :: string
  rv_bbox :: "bbox_t option"

text \<open>
  \<^verbatim>\<open>clamp_bbox\<close> is declared to return an optional box; every path returns a tuple.
\<close>

fun clamp_bbox :: "bbox_t \<Rightarrow> int \<Rightarrow> int \<Rightarrow> bbox_t option" where
  "clamp_bbox (x0, y0, x1, y1) w h =
     Some (max 0 (min (w - 1) x0), max 0 (min (h - 1) y0), max 0 (min w x1), max 0 (min h y1))"

text \<open>
  Text is a sequence of code points below 256.  Whitespace is what \<^verbatim>\<open>\s\<close> matches in a
  str pattern and what \<^verbatim>\<open>str.strip\<close> removes: code points 9 to 13, 28 to 32, 133 and 160.
\<close>

definition py_isspace :: "char \<Rightarrow> bool" where
  "py_isspace c =
     (let n = (of_char c :: nat) in (9 \<le> n \<and> n \<le> 13) \<or> (28 \<le> n \<and> n \<le> 32) \<or> n = 133 \<or> n = 160)"

definition strip :: "string \<Rightarrow> string" where
  "strip s = rev (dropWhile py_isspace (rev (dropWhile py_isspace s)))"

text \<open>
  \<^verbatim>\<open>re.compile(r"\s{2,}").split(txt, maxsplit=1)\<close>: the leftmost run of two or more
  whitespace characters, taken whole, separates the two parts; without such a run the
  text is the only part.
\<close>

fun ws_split :: "string \<Rightarrow> (string \<times> string) option" where
  "ws_split (c # d # cs) =
     (if py_isspace c \<and> py_isspace d then Some ([], dropWhile py_isspace cs)
      else map_option (\<lambda>(l, r). (c # l, r)) (ws_split (d # cs)))"
| "ws_split cs = None"

definition wide_line_split :: "string \<Rightarrow> string list" where
  "wide_line_split txt = (case ws_split txt of None \<Rightarrow> [txt] | Some (l, r) \<Rightarrow> [l, r])"

text \<open>
  The body of the loop of \<^verbatim>\<open>_ocr_one\<close> for one line with a prediction: the record views
  it appends, numbered from \<open>out_idx\<close>.
\<close>

definition line_views ::
  "int \<Rightarrow> int \<Rightarrow> int \<Rightarrow> string \<Rightarrow> bbox_t option \<Rightarrow> record_view list" where
  "line_views page_w page_h out_idx txt bb =
     (let whole = [\<lparr>idx = out_idx, rv_text = txt, rv_bbox = bb\<rparr>] in
      case bb of
        None \<Rightarrow> whole
      | Some (x0, y0, x1, y1) \<Rightarrow>
          if x1 - x0 > trunc (of_int page_w * (80 / 100)) then
            (case wide_line_split txt of
               [left_part, right_part] \<Rightarrow>
                 (let left_txt = strip left_part;
                      right_txt = strip right_part;
                      mid = page_w div 2;
                      left_bb = clamp_bbox (0, y0, mid, y1) page_w page_h;
                      right_bb = clamp_bbox (mid, y0, page_w, y1) page_w page_h;
                      lv = (case left_bb of
                              Some b \<Rightarrow> [\<lparr>idx = out_idx, rv_text = left_txt, rv_bbox = Some b\<rparr>]
                            | None \<Rightarrow> []);
                      rv = (case right_bb of
                              Some b \<Rightarrow> [\<lparr>idx = out_idx + int (length lv),
                                           rv_text = right_txt, rv_bbox = Some b\<rparr>]
                            | None \<Rightarrow> [])
                  in lv @ rv)
             | _ \<Rightarrow> whole)
          else whole)"

text \<open>
  The loop over the sorted lines (source lines 1599 to 1629): a line without a
  prediction is skipped; the running index advances by the number of views appended.
\<close>

fun ocr_views ::
  "builtins \<Rightarrow> int \<Rightarrow> int \<Rightarrow> int \<Rightarrow> kr_record list \<Rightarrow> pyerr + record_view list" where
  "ocr_views B page_w page_h out_idx [] = Inr []"
| "ocr_views B page_w page_h out_idx (r # rs) =
     (case prediction r of
        None \<Rightarrow> ocr_views B page_w page_h out_idx rs
      | Some txt \<Rightarrow>
          ebind (record_bbox B r) (\<lambda>bb.
            (let vs = line_views page_w page_h out_idx txt bb in
             ebind (ocr_views B page_w page_h (out_idx + int (length vs)) rs) (\<lambda>rest.
               Inr (vs @ rest)))))"

text \<open>
  \<^verbatim>\<open>_ocr_one\<close> from the sort on: the lines are put in reading order, then turned into
  record views.
\<close>

definition ocr_one ::
  "builtins \<Rightarrow> kr_record list \<Rightarrow> int \<Rightarrow> int \<Rightarrow> int \<Rightarrow> pyerr + kr_record list \<times> record_view list" where
  "ocr_one B kr_records page_w page_h reading_direction =
     ebind (sort_records_reading_order B kr_records page_w reading_direction) (\<lambda>kr_sorted.
     ebind (ocr_views B page_w page_h 0 kr_sorted) (\<lambda>record_views.
       Inr (kr_sorted, record_views)))"

section \<open>Table grid builder\<close>

text \<open>
  A column under construction is the dict \<^verbatim>\<open>{"x": anchor, "items": members}\<close>, here a
  pair.  The anchor update is \<^verbatim>\<open>int(c["x"] * 0.8 + x0 * 0.2)\<close>.
\<close>

fun place_col ::
  "int \<Rightarrow> int \<Rightarrow> record_view \<Rightarrow> (int \<times> record_view list) list
     \<Rightarrow> (int \<times> record_view list) list option" where
  "place_col x_threshold x0 r [] = None"
| "place_col x_threshold x0 r ((cx, members) # cols) =
     (if \<bar>cx - x0\<bar> \<le> x_threshold
      then Some ((trunc (of_int cx * (8 / 10) + of_int x0 * (2 / 10)), members @ [r]) # cols)
      else map_option (\<lambda>cols'. (cx, members) # cols') (place_col x_threshold x0 r cols))"

fun cluster_loop ::
  "int \<Rightarrow> record_view list \<Rightarrow> (int \<times> record_view list) list
     \<Rightarrow> (int \<times> record_view list) list" where
  "cluster_loop x_threshold [] cols = cols"
| "cluster_loop x_threshold (r # rs) cols =
     (case rv_bbox r of
        None \<Rightarrow> cluster_loop x_threshold rs cols
      | Some (x0, y0, x1, y1) \<Rightarrow>
          (case place_col x_threshold x0 r cols of
             Some cols' \<Rightarrow> cluster_loop x_threshold rs cols'
           | None \<Rightarrow> cluster_loop x_threshold rs (cols @ [(x0, [r])])))"

definition cluster_columns :: "record_view list \<Rightarrow> int \<Rightarrow> record_view list list" where
  "cluster_columns records x_threshold =
     map snd (sort_key fst (cluster_loop x_threshold records []))"

definition is_same_visual_row :: "record_view \<Rightarrow> record_view \<Rightarrow> int \<Rightarrow> bool" where
  "is_same_visual_row a b page_width =
     (case (rv_bbox a, rv_bbox b) of
        (Some (ax0, ay0, ax1, ay1), Some (bx0, by0, bx1, by1)) \<Rightarrow>
          if \<bar>ay0 - by0\<bar> > 12 then False
          else (let mid = page_width div 2 in
                if (ax1 < mid \<and> bx0 > mid) \<or> (bx1 < mid \<and> ax0 > mid) then False else True)
      | _ \<Rightarrow> False)"

text \<open>
  The inner loop of \<^verbatim>\<open>group_rows_by_y\<close>: the line joins the first row whose first member
  \<^verbatim>\<open>row[0]\<close> is in the same visual row.  A row is created with one member and only grows,
  so \<open>hd\<close> is applied to non-empty rows only (lemma \<open>place_rows_nonempty\<close>).
\<close>

fun place_row :: "int \<Rightarrow> record_view \<Rightarrow> record_view list list \<Rightarrow> record_view list list option" where
  "place_row page_width r [] = None"
| "place_row page_width r (row # rows) =
     (if is_same_visual_row (hd row) r page_width then Some ((row @ [r]) # rows)
      else map_option (\<lambda>rows'. row # rows') (place_row page_width r rows))"

fun place_rows :: "int \<Rightarrow> record_view list \<Rightarrow> record_view list list \<Rightarrow> record_view list list" where
  "place_rows page_width [] rows = rows"
| "place_rows page_width (r # rs) rows =
     (case place_row page_width r rows of
        Some rows' \<Rightarrow> place_rows page_width rs rows'
      | None \<Rightarrow> place_rows page_width rs (rows @ [[r]]))"

text \<open>
  The sort keys \<^verbatim>\<open>(rv.bbox[1], rv.bbox[0])\<close> and \<^verbatim>\<open>rv.bbox[0]\<close> are read from lines that
  passed the filter \<^verbatim>\<open>if r.bbox\<close>, so \<open>the\<close> is applied to a box that is there.
\<close>

definition top_left_key :: "record_view \<Rightarrow> int \<times> int" where
  "top_left_key rv = (case the (rv_bbox rv) of (x0, y0, x1, y1) \<Rightarrow> (y0, x0))"

definition left_key :: "record_view \<Rightarrow> int" where
  "left_key rv = (case the (rv_bbox rv) of (x0, y0, x1, y1) \<Rightarrow> x0)"

definition group_rows_by_y :: "record_view list \<Rightarrow> int \<Rightarrow> record_view list list" where
  "group_rows_by_y records page_width =
     (let sorted_recs = sort_key top_left_key (filter (\<lambda>r. rv_bbox r \<noteq> None) records);
          rows = place_rows page_width sorted_recs []
      in map (sort_key left_key) rows)"

text \<open>The local function \<^verbatim>\<open>nearest_col\<close>; \<open>nearest_loop\<close> is its loop from index 1 on.\<close>

fun nearest_loop :: "int \<Rightarrow> int list \<Rightarrow> nat \<Rightarrow> nat \<Rightarrow> int \<Rightarrow> nat" where
  "nearest_loop x [] i best_i best_d = best_i"
| "nearest_loop x (c # cs) i best_i best_d =
     (let d = \<bar>c - x\<bar> in
      if d < best_d then nearest_loop x cs (i + 1) i d
      else nearest_loop x cs (i + 1) best_i best_d)"

definition nearest_col :: "int list \<Rightarrow> int \<Rightarrow> nat" where
  "nearest_col col_x x =
     (case col_x of [] \<Rightarrow> 0 | c # cs \<Rightarrow> nearest_loop x cs 1 0 \<bar>c - x\<bar>)"

text \<open>One row of the grid: the loop over the members of a row.\<close>

fun fill_cells :: "int list \<Rightarrow> record_view list \<Rightarrow> string list \<Rightarrow> string list" where
  "fill_cells col_x [] cells = cells"
| "fill_cells col_x (rv # rvs) cells =
     (case rv_bbox rv of
        None \<Rightarrow> fill_cells col_x rvs cells
      | Some (x0, y0, x1, y1) \<Rightarrow>
          (let c = nearest_col col_x x0 in
           if cells ! c \<noteq> [] then fill_cells col_x rvs (cells[c := cells ! c @ '' '' @ rv_text rv])
           else fill_cells col_x rvs (cells[c := rv_text rv])))"

definition column_anchor :: "record_view list \<Rightarrow> int" where
  "column_anchor col =
     (let xs = map left_key (filter (\<lambda>rv. rv_bbox rv \<noteq> None) col) in
      if xs \<noteq> [] then trunc (of_int (sum_list xs) / of_nat (max 1 (length xs))) else 0)"

definition table_to_rows :: "record_view list \<Rightarrow> int \<Rightarrow> string list list" where
  "table_to_rows records page_width =
     (let rows = group_rows_by_y records page_width;
          cols = cluster_columns records 45;
          col_x = map column_anchor cols
      in map (\<lambda>row. fill_cells col_x row (replicate (max 1 (length col_x)) [])) rows)"


section \<open>Well-formed polygon values\<close>




section \<open>Runs of whitespace\<close>


section \<open>The invariant of row grouping\<close>

text \<open>
  \<open>row_inv pw rows\<close>: no row is empty, and every later member of a row is in the same
  visual row as its first member, the line the row was opened with.
\<close>

definition row_inv :: "int \<Rightarrow> record_view list list \<Rightarrow> bool" where
  "row_inv pw rows \<longleftrightarrow>
     (\<forall>row \<in> set rows. row \<noteq> [] \<and> (\<forall>r \<in> set (tl row). is_same_visual_row (hd row) r pw))"

section \<open>Concrete inputs\<close>

text \<open>
  The conversions used at the concrete inputs below.  None of these inputs holds a string
  among its geometry fields or an int beyond 2^53 in absolute value: the string parsers
  reject every string, and \<^verbatim>\<open>float(n)\<close> is the exact value of \<open>n\<close> up to 2^53, where
  binary64 is exact, and is left out beyond.
\<close>

definition no_str_parse :: builtins where
  "no_str_parse =
     \<lparr>float_of_str = Map.empty, int_of_str = Map.empty,
      float_of_int = (\<lambda>n. if \<bar>n\<bar> \<le> 2 ^ 53 then Some (Fin (of_int n)) else None)\<rparr>"

text \<open>A line whose only geometry is the explicit box \<open>(x0, y0, x1, y1)\<close>.\<close>

definition box_line :: "int \<Rightarrow> int \<Rightarrow> int \<Rightarrow> int \<Rightarrow> string \<Rightarrow> kr_record" where
  "box_line x0 y0 x1 y1 txt =
     \<lparr>bbox = PSeq [PInt x0, PInt y0, PInt x1, PInt y1], boundary = PNone, polygon = PNone,
      baseline = PNone, prediction = Some txt\<rparr>"

section \<open>Properties of the geometry normalizer\<close>

lemma ebind_simps [simp]: "ebind (Inl e) f = Inl e" "ebind (Inr v) f = f v"
  by (simp_all add: ebind_def)

lemma no_str_parse_simps [simp]:
  "float_of_str no_str_parse s = None"
  "int_of_str no_str_parse s = None"
  "\<bar>n\<bar> \<le> 2 ^ 53 \<Longrightarrow> float_of_int no_str_parse n = Some (Fin (of_int n))"
  by (simp_all add: no_str_parse_def)

lemma foldl_min_Fin:
  "foldl (\<lambda>m y. if float_lt y m then y else m) (Fin a) (map Fin xs) = Fin (fold min xs a)"
  by (induction xs arbitrary: a) (auto simp: min_def)

lemma foldl_max_Fin:
  "foldl (\<lambda>m y. if float_lt m y then y else m) (Fin a) (map Fin xs) = Fin (fold max xs a)"
  by (induction xs arbitrary: a) (auto simp: max_def)

lemma py_min_Fin:
  assumes "xs \<noteq> []"
  shows "py_min (map Fin xs) = Inr (Fin (Min (set xs)))"
proof -
  obtain y ys where xs: "xs = y # ys" using assms by (cases xs) auto
  have "py_min (map Fin xs) = Inr (Fin (fold min ys y))"
    by (simp add: xs foldl_min_Fin)
  also have "fold min ys y = Min (set xs)"
    unfolding xs by (rule Min.set_eq_fold[symmetric])
  finally show ?thesis .
qed

lemma py_max_Fin:
  assumes "xs \<noteq> []"
  shows "py_max (map Fin xs) = Inr (Fin (Max (set xs)))"
proof -
  obtain y ys where xs: "xs = y # ys" using assms by (cases xs) auto
  have "py_max (map Fin xs) = Inr (Fin (fold max ys y))"
    by (simp add: xs foldl_max_Fin)
  also have "fold max ys y = Max (set xs)"
    unfolding xs by (rule Max.set_eq_fold[symmetric])
  finally show ?thesis .
qed

lemma bbox_from_points_nonempty:
  "pts \<noteq> [] \<Longrightarrow> bbox_from_points pts pad =
     ebind (py_min (map fst pts)) (\<lambda>mx. ebind (int_of_float mx) (\<lambda>ix0.
     ebind (py_min (map snd pts)) (\<lambda>my. ebind (int_of_float my) (\<lambda>iy0.
     ebind (py_max (map fst pts)) (\<lambda>Mx. ebind (int_of_float Mx) (\<lambda>ix1.
     ebind (py_max (map snd pts)) (\<lambda>My. ebind (int_of_float My) (\<lambda>iy1.
       if ix1 + pad \<le> ix0 - pad \<or> iy1 + pad \<le> iy0 - pad then Inr None
       else Inr (Some (ix0 - pad, iy0 - pad, ix1 + pad, iy1 + pad))))))))))"
  by (cases pts) (simp_all add: Let_def del: py_min.simps py_max.simps)

lemma bbox_from_points_Fin:
  assumes "pts \<noteq> []"
  shows "bbox_from_points (map (map_prod Fin Fin) pts) pad =
    (if trunc (Max (fst ` set pts)) + pad \<le> trunc (Min (fst ` set pts)) - pad
        \<or> trunc (Max (snd ` set pts)) + pad \<le> trunc (Min (snd ` set pts)) - pad
     then Inr None
     else Inr (Some (trunc (Min (fst ` set pts)) - pad, trunc (Min (snd ` set pts)) - pad,
                     trunc (Max (fst ` set pts)) + pad, trunc (Max (snd ` set pts)) + pad)))"
proof -
  have fx: "map fst (map (map_prod Fin Fin) pts) = map Fin (map fst pts)"
    and fy: "map snd (map (map_prod Fin Fin) pts) = map Fin (map snd pts)"
    by (simp_all add: comp_def)
  have ne: "map fst pts \<noteq> []" "map snd pts \<noteq> []" "map (map_prod Fin Fin) pts \<noteq> []"
    using assms by simp_all
  show ?thesis
    unfolding bbox_from_points_nonempty[OF ne(3)] fx fy
      py_min_Fin[OF ne(1)] py_min_Fin[OF ne(2)] py_max_Fin[OF ne(1)] py_max_Fin[OF ne(2)]
    by simp
qed

lemma trunc_of_int: "trunc (of_int n) = n"
  by (simp add: trunc_def)

lemma trunc_numerals:
  "trunc 0 = 0" "trunc 1 = 1" "trunc (numeral k) = numeral k"
  "trunc (- numeral k) = - numeral k"
  by (simp_all add: trunc_def)

lemma trunc_neg_half: "trunc (- (1 / 2)) = 0"
  by (simp add: trunc_def ceiling_eq_iff)

lemma trunc_mono: "a \<le> b \<Longrightarrow> trunc a \<le> trunc b"
proof -
  assume ab: "a \<le> b"
  show ?thesis
  proof (cases "0 \<le> a")
    case True
    then show ?thesis using ab by (simp add: trunc_def floor_mono)
  next
    case False
    show ?thesis
    proof (cases "0 \<le> b")
      case True
      have c: "\<lceil>a\<rceil> \<le> 0" using False by (simp add: ceiling_le_zero)
      have f: "0 \<le> \<lfloor>b\<rfloor>" using True by simp
      have "\<lceil>a\<rceil> \<le> \<lfloor>b\<rfloor>" by (rule order_trans[OF c f])
      then show ?thesis using False True by (simp only: trunc_def if_True if_False)
    next
      case F2: False
      then show ?thesis using False ab by (simp add: trunc_def ceiling_mono)
    qed
  qed
qed

lemma trunc_Min_le_Max:
  assumes "pts \<noteq> []"
  shows "trunc (Min (f ` set pts)) \<le> trunc (Max (f ` set pts))"
  by (rule trunc_mono) (use assms in \<open>simp add: Min_le_iff\<close>)

lemma bbox_from_points_Fin_pad2:
  assumes "pts \<noteq> []"
  shows "bbox_from_points (map (map_prod Fin Fin) pts) 2 =
     Inr (Some (trunc (Min (fst ` set pts)) - 2, trunc (Min (snd ` set pts)) - 2,
                trunc (Max (fst ` set pts)) + 2, trunc (Max (snd ` set pts)) + 2))"
  using trunc_Min_le_Max[OF assms, of fst] trunc_Min_le_Max[OF assms, of snd]
  by (simp add: bbox_from_points_Fin[OF assms])

lemma coerce_points_nonempty_truthy: "coerce_points B v \<noteq> [] \<Longrightarrow> truthy v"
  by (cases "(B, v)" rule: coerce_points.cases) auto


text \<open>
  Claim C5, as amended.  For a line whose explicit box and polygons give no box and whose
  baseline coerces to a non-empty set of finite points, \<open>record_bbox\<close> returns the
  bounding box of the points, each coordinate truncated toward zero, widened by 2 px on
  the left and on the right and by 16 px above and below: the 2 px of
  \<^verbatim>\<open>_bbox_from_points(pts, pad=2)\<close> and then \<^verbatim>\<open>vpad = 14\<close> on top of them.
\<close>

theorem baseline_bbox_padding:
  assumes "(if truthy (bbox r) then explicit_bbox B (bbox r) else None) = None"
    and "polygon_bbox B (boundary r) = Inr None"
    and "polygon_bbox B (polygon r) = Inr None"
    and "coerce_points B (baseline r) = map (map_prod Fin Fin) pts"
    and "pts \<noteq> []"
  shows "record_bbox B r =
     Inr (Some (trunc (Min (fst ` set pts)) - 2, trunc (Min (snd ` set pts)) - 16,
                trunc (Max (fst ` set pts)) + 2, trunc (Max (snd ` set pts)) + 16))"
proof -
  have "coerce_points B (baseline r) \<noteq> []" using assms(4,5) by simp
  then have t: "truthy (baseline r)" by (rule coerce_points_nonempty_truthy)
  have "baseline_bbox B (baseline r) =
     Inr (Some (trunc (Min (fst ` set pts)) - 2, trunc (Min (snd ` set pts)) - 16,
                trunc (Max (fst ` set pts)) + 2, trunc (Max (snd ` set pts)) + 16))"
    using t by (simp add: assms(4) bbox_from_points_Fin_pad2[OF assms(5)])
  then show ?thesis
    using assms(1,2,3) by (simp add: record_bbox_def del: polygon_bbox.simps baseline_bbox.simps explicit_bbox.simps)
qed

theorem baseline_bbox_padding_witness:
  "(let r = \<lparr>bbox = PNone, boundary = PNone, polygon = PNone,
             baseline = PSeq [PSeq [PInt 0, PInt 100], PSeq [PInt 50, PInt 100]],
             prediction = Some ''ab''\<rparr>
    in coerce_points no_str_parse (baseline r) = map (map_prod Fin Fin) [(0, 100), (50, 100)]
       \<and> record_bbox no_str_parse r = Inr (Some (- 2, 84, 52, 116)))"
  using baseline_bbox_padding [of "\<lparr>bbox = PNone, boundary = PNone, polygon = PNone,
             baseline = PSeq [PSeq [PInt 0, PInt 100], PSeq [PInt 50, PInt 100]],
             prediction = Some ''ab''\<rparr>" no_str_parse "[(0, 100), (50, 100)]"]
  by (simp add: trunc_def)

text \<open>
  The claim as stated asks for 14 px above and below and for the floor of the
  coordinates.  A horizontal baseline at height 100 gets the rows 84 to 116, where the
  claim has 86 to 114; a baseline starting at x = -0.5 gets the left edge
  \<^verbatim>\<open>int(-0.5) - 2 = -2\<close>, where the floor gives -3.
\<close>

theorem baseline_pad_counterexample:
  "record_bbox no_str_parse \<lparr>bbox = PNone, boundary = PNone, polygon = PNone,
             baseline = PSeq [PSeq [PInt 0, PInt 100], PSeq [PInt 50, PInt 100]],
             prediction = Some ''ab''\<rparr> = Inr (Some (- 2, 84, 52, 116))
   \<and> record_bbox no_str_parse \<lparr>bbox = PNone, boundary = PNone, polygon = PNone,
             baseline = PSeq [PSeq [PInt 0, PInt 100], PSeq [PInt 50, PInt 100]],
             prediction = Some ''ab''\<rparr> \<noteq> Inr (Some (- 2, 86, 52, 114))
   \<and> record_bbox no_str_parse \<lparr>bbox = PNone, boundary = PNone, polygon = PNone,
             baseline = PSeq [PSeq [PFloat (Fin (- 1 / 2)), PInt 100], PSeq [PInt 50, PInt 100]],
             prediction = Some ''ab''\<rparr> = Inr (Some (- 2, 84, 52, 116))
   \<and> record_bbox no_str_parse \<lparr>bbox = PNone, boundary = PNone, polygon = PNone,
             baseline = PSeq [PSeq [PFloat (Fin (- 1 / 2)), PInt 100], PSeq [PInt 50, PInt 100]],
             prediction = Some ''ab''\<rparr> \<noteq> Inr (Some (- 3, 84, 52, 116))"
  by (simp add: record_bbox_def Let_def trunc_numerals trunc_neg_half)













text \<open>
  Claim C8 fails on the code.  A polygon whose first point has a nan coordinate is
  coerced without loss (no empty point set), and \<^verbatim>\<open>int(min(xs))\<close> in
  \<^verbatim>\<open>_bbox_from_points\<close> then raises ValueError outside any \<^verbatim>\<open>try\<close>: \<open>record_bbox\<close>
  raises, and so does the sort of a page holding the line.
\<close>

theorem nan_polygon_raises:
  "coerce_points no_str_parse
       (PSeq [PSeq [PFloat NaN, PFloat (Fin 0)], PSeq [PFloat (Fin 9), PFloat (Fin 9)]])
     = [(NaN, Fin 0), (Fin 9, Fin 9)]
   \<and> record_bbox no_str_parse \<lparr>bbox = PNone,
        boundary = PSeq [PSeq [PFloat NaN, PFloat (Fin 0)], PSeq [PFloat (Fin 9), PFloat (Fin 9)]],
        polygon = PNone, baseline = PNone, prediction = Some ''ab''\<rparr> = Inl ValueError
   \<and> sort_records_reading_order no_str_parse [\<lparr>bbox = PNone,
        boundary = PSeq [PSeq [PFloat NaN, PFloat (Fin 0)], PSeq [PFloat (Fin 9), PFloat (Fin 9)]],
        polygon = PNone, baseline = PNone, prediction = Some ''ab''\<rparr>] 800 TB_LR
       = Inl ValueError"
  by (simp add: record_bbox_def sort_records_reading_order_def Let_def)

section \<open>Properties of the reading-order sorter\<close>

lemma py_index_in_range: "0 \<le> i \<Longrightarrow> i < int (length xs) \<Longrightarrow> py_index xs i = Inr (xs ! nat i)"
  by (simp add: py_index_def)

lemma trunc_nonneg: "0 \<le> r \<Longrightarrow> trunc r = \<lfloor>r\<rfloor>"
  by (simp add: trunc_def)

lemma convex_between:
  fixes lo hi a b t :: rat
  assumes "lo \<le> a" "a \<le> hi" "lo \<le> b" "b \<le> hi" "0 \<le> t" "t \<le> 1"
  shows "lo \<le> a + (b - a) * t \<and> a + (b - a) * t \<le> hi"
proof -
  have e: "a + (b - a) * t = (1 - t) * a + t * b" by (simp add: algebra_simps)
  have l1: "(1 - t) * lo \<le> (1 - t) * a" using assms by (intro mult_left_mono) simp_all
  have l2: "t * lo \<le> t * b" using assms by (intro mult_left_mono) simp_all
  have u1: "(1 - t) * a \<le> (1 - t) * hi" using assms by (intro mult_left_mono) simp_all
  have u2: "t * b \<le> t * hi" using assms by (intro mult_left_mono) simp_all
  have "lo = (1 - t) * lo + t * lo" by (simp add: algebra_simps)
  moreover have "hi = (1 - t) * hi + t * hi" by (simp add: algebra_simps)
  ultimately show ?thesis using l1 l2 u1 u2 e by linarith
qed

lemma q_in_range:
  assumes ne: "vs \<noteq> []" and p0: "0 \<le> p" and p1: "p \<le> 1"
  shows "\<exists>v. q vs p = Inr (Some v) \<and> Min (set vs) \<le> v \<and> v \<le> Max (set vs)"
proof -
  define vals where "vals = sort vs"
  define n where "n = int (length vals)"
  define k where "k = (of_nat (length vals) - 1) * p"
  define f where "f = trunc k"
  define c where "c = min (f + 1) (n - 1)"
  have len: "length vals = length vs" by (simp add: vals_def)
  have n1: "1 \<le> n" using ne by (cases vs) (simp_all add: n_def len)
  have kn: "k = of_int (n - 1) * p" by (simp add: k_def n_def)
  have k0: "0 \<le> k" unfolding kn using n1 p0 by simp
  have "k \<le> of_int (n - 1) * 1" unfolding kn using n1 p1 by (intro mult_left_mono) simp_all
  then have kle: "k \<le> of_int (n - 1)" by simp
  have ff: "f = \<lfloor>k\<rfloor>" by (simp add: f_def trunc_nonneg k0)
  have f0: "0 \<le> f" using k0 by (simp add: ff)
  have fle: "f \<le> n - 1" unfolding ff using kle by (simp add: floor_le_iff) linarith
  have c0: "0 \<le> c" using f0 n1 by (simp add: c_def)
  have cle: "c \<le> n - 1" by (simp add: c_def)
  have t0: "0 \<le> k - of_int f" by (simp add: ff)
  have t1: "k - of_int f \<le> 1" using floor_correct[of k] by (simp add: ff)
  have idx_f: "py_index vals f = Inr (vals ! nat f)"
    using f0 fle by (intro py_index_in_range) (simp_all add: n_def)
  have idx_c: "py_index vals c = Inr (vals ! nat c)"
    using c0 cle by (intro py_index_in_range) (simp_all add: n_def)
  have mem: "\<And>i. 0 \<le> i \<Longrightarrow> i \<le> n - 1 \<Longrightarrow> vals ! nat i \<in> set vs"
  proof -
    fix i :: int assume "0 \<le> i" "i \<le> n - 1"
    then have "nat i < length vals" by (simp add: n_def)
    then have "vals ! nat i \<in> set vals" by (rule nth_mem)
    then show "vals ! nat i \<in> set vs" by (simp add: vals_def)
  qed
  have rng: "\<And>x. x \<in> set vs \<Longrightarrow> Min (set vs) \<le> x \<and> x \<le> Max (set vs)" by simp
  have rf: "Min (set vs) \<le> vals ! nat f \<and> vals ! nat f \<le> Max (set vs)"
    using mem[OF f0 fle] rng by blast
  have rc: "Min (set vs) \<le> vals ! nat c \<and> vals ! nat c \<le> Max (set vs)"
    using mem[OF c0 cle] rng by blast
  have qeq: "q vs p = (if f = c then Inr (Some (vals ! nat f))
       else Inr (Some (vals ! nat f + (vals ! nat c - vals ! nat f) * (k - of_int f))))"
    using ne idx_f idx_c
    by (simp add: q_def Let_def vals_def[symmetric] k_def[symmetric] f_def[symmetric]
        n_def[symmetric] c_def[symmetric])
  show ?thesis
  proof (cases "f = c")
    case True
    then show ?thesis using qeq rf by simp
  next
    case False
    then show ?thesis using qeq convex_between[of "Min (set vs)" "vals ! nat f" "Max (set vs)" "vals ! nat c" "k - of_int f"] rf rc t0 t1
      by simp
  qed
qed

lemma sum_list_bounds:
  fixes g :: "rat list"
  assumes "\<forall>x \<in> set g. lo \<le> x \<and> x \<le> hi"
  shows "of_nat (length g) * lo \<le> sum_list g \<and> sum_list g \<le> of_nat (length g) * hi"
  using assms by (induction g) (auto simp: algebra_simps intro: add_mono)

lemma mean_in_range:
  fixes g :: "rat list"
  assumes "g \<noteq> []" and "\<forall>x \<in> set g. lo \<le> x \<and> x \<le> hi"
  shows "lo \<le> sum_list g / of_nat (length g) \<and> sum_list g / of_nat (length g) \<le> hi"
proof -
  have pos: "(0::rat) < of_nat (length g)" using assms(1) by simp
  show ?thesis using sum_list_bounds[OF assms(2)] pos
    by (simp add: pos_le_divide_eq pos_divide_le_eq mult.commute)
qed

lemma py_truediv_nonempty: "g \<noteq> [] \<Longrightarrow> py_truediv a (length g) = Inr (a / of_nat (length g))"
  by (simp add: py_truediv_def)

lemma kmeans_step_eq:
  "kmeans_step xs (c1, c2) =
     Inr (let g1 = filter (\<lambda>x. \<bar>x - c1\<bar> \<le> \<bar>x - c2\<bar>) xs in
            if g1 \<noteq> [] then sum_list g1 / of_nat (length g1) else c1,
          let g2 = filter (\<lambda>x. \<not> \<bar>x - c1\<bar> \<le> \<bar>x - c2\<bar>) xs in
            if g2 \<noteq> [] then sum_list g2 / of_nat (length g2) else c2)"
  by (simp add: kmeans_step_def Let_def py_truediv_nonempty)

lemma kmeans_step_range:
  assumes "\<forall>x \<in> set xs. lo \<le> x \<and> x \<le> hi"
    and "lo \<le> c1" "c1 \<le> hi" "lo \<le> c2" "c2 \<le> hi"
  shows "\<exists>d1 d2. kmeans_step xs (c1, c2) = Inr (d1, d2)
           \<and> lo \<le> d1 \<and> d1 \<le> hi \<and> lo \<le> d2 \<and> d2 \<le> hi"
proof -
  let ?g1 = "filter (\<lambda>x. \<bar>x - c1\<bar> \<le> \<bar>x - c2\<bar>) xs"
  let ?g2 = "filter (\<lambda>x. \<not> \<bar>x - c1\<bar> \<le> \<bar>x - c2\<bar>) xs"
  have b1: "\<forall>x \<in> set ?g1. lo \<le> x \<and> x \<le> hi" using assms(1) by simp
  have b2: "\<forall>x \<in> set ?g2. lo \<le> x \<and> x \<le> hi" using assms(1) by simp
  have m1: "?g1 \<noteq> [] \<Longrightarrow> lo \<le> sum_list ?g1 / of_nat (length ?g1) \<and> sum_list ?g1 / of_nat (length ?g1) \<le> hi"
    using mean_in_range[OF _ b1] by blast
  have m2: "?g2 \<noteq> [] \<Longrightarrow> lo \<le> sum_list ?g2 / of_nat (length ?g2) \<and> sum_list ?g2 / of_nat (length ?g2) \<le> hi"
    using mean_in_range[OF _ b2] by blast
  show ?thesis
    unfolding kmeans_step_eq Let_def using m1 m2 assms(2-5) by auto
qed

lemma kmeans_loop_range:
  assumes "\<forall>x \<in> set xs. lo \<le> x \<and> x \<le> hi"
  shows "lo \<le> c1 \<Longrightarrow> c1 \<le> hi \<Longrightarrow> lo \<le> c2 \<Longrightarrow> c2 \<le> hi \<Longrightarrow>
     \<exists>d1 d2. kmeans_loop n xs (c1, c2) = Inr (d1, d2)
           \<and> lo \<le> d1 \<and> d1 \<le> hi \<and> lo \<le> d2 \<and> d2 \<le> hi"
proof (induction n arbitrary: c1 c2)
  case 0
  then show ?case by simp
next
  case (Suc n)
  obtain d1 d2 where s: "kmeans_step xs (c1, c2) = Inr (d1, d2)"
    and r: "lo \<le> d1" "d1 \<le> hi" "lo \<le> d2" "d2 \<le> hi"
    using kmeans_step_range[OF assms Suc.prems] by blast
  show ?case using Suc.IH[OF r] by (simp add: s)
qed

lemma kmeans_loop_total: "\<exists>d. kmeans_loop n xs c = Inr d"
proof (induction n arbitrary: c)
  case 0
  then show ?case by simp
next
  case (Suc n)
  obtain c1 c2 where c: "c = (c1, c2)" by (cases c)
  show ?case using Suc.IH by (simp add: c kmeans_step_eq)
qed


text \<open>
  Claim C10.  The rounds of nearest-center reassignment and mean update never raise,
  from any start and for any number of rounds: a cluster that receives no point keeps
  its center, so the mean is only taken of a non-empty cluster.  For a non-empty list
  of candidate centers the two seeds (the 25th and 75th percentile) exist and after the
  8 rounds both centers lie between the smallest and the largest candidate center.
\<close>

theorem kmeans_centers_well_defined:
  "(\<exists>d. kmeans_loop n xs c = Inr d)
   \<and> (filter (\<lambda>x. \<bar>x - c1\<bar> \<le> \<bar>x - c2\<bar>) xs = []
        \<longrightarrow> (\<exists>d2. kmeans_step xs (c1, c2) = Inr (c1, d2)))
   \<and> (filter (\<lambda>x. \<not> \<bar>x - c1\<bar> \<le> \<bar>x - c2\<bar>) xs = []
        \<longrightarrow> (\<exists>d1. kmeans_step xs (c1, c2) = Inr (d1, c2)))
   \<and> (xs \<noteq> [] \<longrightarrow>
        (\<exists>s1 s2 d1 d2. q xs (1 / 4) = Inr (Some s1) \<and> q xs (3 / 4) = Inr (Some s2)
           \<and> kmeans_loop 8 xs (s1, s2) = Inr (d1, d2)
           \<and> Min (set xs) \<le> d1 \<and> d1 \<le> Max (set xs)
           \<and> Min (set xs) \<le> d2 \<and> d2 \<le> Max (set xs)))"
proof (intro conjI impI)
  show "\<exists>d. kmeans_loop n xs c = Inr d" by (rule kmeans_loop_total)
next
  assume "filter (\<lambda>x. \<bar>x - c1\<bar> \<le> \<bar>x - c2\<bar>) xs = []"
  then show "\<exists>d2. kmeans_step xs (c1, c2) = Inr (c1, d2)"
    by (simp add: kmeans_step_eq Let_def)
next
  assume "filter (\<lambda>x. \<not> \<bar>x - c1\<bar> \<le> \<bar>x - c2\<bar>) xs = []"
  then show "\<exists>d1. kmeans_step xs (c1, c2) = Inr (d1, c2)"
    by (simp add: kmeans_step_eq Let_def)
next
  assume ne: "xs \<noteq> []"
  obtain s1 where s1: "q xs (1 / 4) = Inr (Some s1)"
    and r1: "Min (set xs) \<le> s1" "s1 \<le> Max (set xs)"
    using q_in_range[OF ne, of "1 / 4"] by auto
  obtain s2 where s2: "q xs (3 / 4) = Inr (Some s2)"
    and r2: "Min (set xs) \<le> s2" "s2 \<le> Max (set xs)"
    using q_in_range[OF ne, of "3 / 4"] by auto
  have b: "\<forall>x \<in> set xs. Min (set xs) \<le> x \<and> x \<le> Max (set xs)" by simp
  obtain d1 d2 where "kmeans_loop 8 xs (s1, s2) = Inr (d1, d2)"
    "Min (set xs) \<le> d1" "d1 \<le> Max (set xs)" "Min (set xs) \<le> d2" "d2 \<le> Max (set xs)"
    using kmeans_loop_range[OF b r1 r2, of 8] by blast
  then show "\<exists>s1 s2 d1 d2. q xs (1 / 4) = Inr (Some s1) \<and> q xs (3 / 4) = Inr (Some s2)
           \<and> kmeans_loop 8 xs (s1, s2) = Inr (d1, d2)
           \<and> Min (set xs) \<le> d1 \<and> d1 \<le> Max (set xs)
           \<and> Min (set xs) \<le> d2 \<and> d2 \<le> Max (set xs)"
    using s1 s2 by blast
qed

theorem kmeans_centers_well_defined_witness:
  "(\<exists>d1. kmeans_step [50, 60] (50, 10) = Inr (d1, 10))
   \<and> (\<exists>s1 s2 d1 d2. q [50, 60, 70, 900, 910, 920] (1 / 4) = Inr (Some s1)
           \<and> q [50, 60, 70, 900, 910, 920] (3 / 4) = Inr (Some s2)
           \<and> kmeans_loop 8 [50, 60, 70, 900, 910, 920] (s1, s2) = Inr (d1, d2)
           \<and> 50 \<le> d1 \<and> d1 \<le> 920 \<and> 50 \<le> d2 \<and> d2 \<le> 920)"
  using kmeans_centers_well_defined [of 8 "[50, 60]" "(50, 10)" 50 10]
    kmeans_centers_well_defined [of 8 "[50, 60, 70, 900, 910, 920]" "(50, 10)" 50 10]
  by simp














lemma record_bbox_box_line:
  "record_bbox B (box_line x0 y0 x1 y1 txt) =
     Inr (if x1 > x0 \<and> y1 > y0 then Some (x0, y0, x1, y1) else None)"
  by (simp add: box_line_def record_bbox_def)

lemma q_const:
  assumes "xs \<noteq> []" "\<forall>x \<in> set xs. x = c" "0 \<le> p" "p \<le> 1"
  shows "q xs p = Inr (Some c)"
proof -
  obtain v where v: "q xs p = Inr (Some v)" "Min (set xs) \<le> v" "v \<le> Max (set xs)"
    using q_in_range[OF assms(1,3,4)] by blast
  have "set xs = {c}" using assms(1,2) by (cases xs) auto
  then show ?thesis using v by simp
qed

lemma kmeans_step_const:
  assumes "xs \<noteq> []" "\<forall>x \<in> set xs. x = c"
  shows "kmeans_step xs (c, c) = Inr (c, c)"
proof -
  have f: "filter (\<lambda>x. \<bar>x - c\<bar> \<le> \<bar>x - c\<bar>) xs = xs" by simp
  have "xs = replicate (length xs) c" using assms(2) by (simp add: replicate_length_same)
  then have "sum_list xs = of_nat (length xs) * c" by (metis sum_list_replicate)
  then show ?thesis using assms(1) by (simp add: kmeans_step_eq)
qed

lemma kmeans_loop_const:
  assumes "xs \<noteq> []" "\<forall>x \<in> set xs. x = c"
  shows "kmeans_loop n xs (c, c) = Inr (c, c)"
  by (induction n) (simp_all add: kmeans_step_const[OF assms])

lemma column_order_one_center:
  assumes "bc \<noteq> []"
    and "\<forall>it \<in> set bc. bb_center_x (snd it) = bb_center_x (snd (hd bc))"
    and "0 < w"
  shows "column_order items bc w m = Inr (plain_sort items)"
proof -
  let ?c = "bb_center_x (snd (hd bc))"
  let ?xs = "map (\<lambda>(r, bb). bb_center_x bb) bc"
  have ne: "?xs \<noteq> []" using assms(1) by simp
  have all: "\<forall>x \<in> set ?xs. x = ?c" using assms(2) by auto
  have q1: "q ?xs (1 / 4) = Inr (Some ?c)" by (rule q_const[OF ne all]) simp_all
  have q3: "q ?xs (3 / 4) = Inr (Some ?c)" by (rule q_const[OF ne all]) simp_all
  have k: "kmeans_loop 8 ?xs (?c, ?c) = Inr (?c, ?c)" by (rule kmeans_loop_const[OF ne all])
  show ?thesis using assms(3) by (simp add: column_order_def Let_def q1 q3 k)
qed

text \<open>
  Claim C3 fails on the code.  Six lines of one column, read bottom to top: the two
  centers coincide, so the page is single-column, and the lines come back top to bottom,
  sorted by \<open>(y, x)\<close> without the sign flip of the mode.  With five of these lines
  (fewer than 6 body candidates) the same mode gives them bottom to top.
\<close>

theorem close_centers_ignore_mode:
  "sort_records_reading_order no_str_parse
      [box_line 10 0 110 20 ''a'', box_line 10 100 110 120 ''b'', box_line 10 200 110 220 ''c'',
       box_line 10 300 110 320 ''d'', box_line 10 400 110 420 ''e'', box_line 10 500 110 520 ''f'']
      800 BT_LR
    = Inr [box_line 10 0 110 20 ''a'', box_line 10 100 110 120 ''b'', box_line 10 200 110 220 ''c'',
       box_line 10 300 110 320 ''d'', box_line 10 400 110 420 ''e'', box_line 10 500 110 520 ''f'']
   \<and> sort_records_reading_order no_str_parse
      [box_line 10 0 110 20 ''a'', box_line 10 100 110 120 ''b'', box_line 10 200 110 220 ''c'',
       box_line 10 300 110 320 ''d'', box_line 10 400 110 420 ''e'']
      800 BT_LR
    = Inr [box_line 10 400 110 420 ''e'', box_line 10 300 110 320 ''d'', box_line 10 200 110 220 ''c'',
       box_line 10 100 110 120 ''b'', box_line 10 0 110 20 ''a'']"
  by (simp add: sort_records_reading_order_def record_bbox_box_line Let_def is_fullwidth_def
      trunc_def floor_eq_iff BT_LR_def column_order_one_center plain_sort_def)


section \<open>Lines without geometry\<close>





lemma table_to_rows_no_boxes:
  "\<forall>rv \<in> set rvs. rv_bbox rv = None \<Longrightarrow> table_to_rows rvs w = []"
proof -
  assume "\<forall>rv \<in> set rvs. rv_bbox rv = None"
  then have "filter (\<lambda>r. rv_bbox r \<noteq> None) rvs = []" by (simp add: filter_empty_conv)
  then show ?thesis by (simp add: table_to_rows_def group_rows_by_y_def Let_def)
qed






section \<open>Properties of the wide-line split\<close>









lemma prediction_box_line: "prediction (box_line x0 y0 x1 y1 t) = Some t"
  by (simp add: box_line_def)




section \<open>The box invariant\<close>

lemma bbox_from_points_valid:
  "bbox_from_points pts pad = Inr (Some (x0, y0, x1, y1)) \<Longrightarrow> x0 < x1 \<and> y0 < y1"
  by (cases pts) (auto simp: ebind_def Let_def split: sum.splits if_splits)

lemma explicit_bbox_valid:
  "explicit_bbox B v = Some (x0, y0, x1, y1) \<Longrightarrow> x0 < x1 \<and> y0 < y1"
  by (auto split: option.splits list.splits sum.splits if_splits)

text \<open>
  Every box that \<open>record_bbox\<close> returns satisfies \<open>x1 > x0\<close> and \<open>y1 > y0\<close>.
\<close>

theorem record_bbox_valid:
  assumes "record_bbox B r = Inr (Some (x0, y0, x1, y1))"
  shows "x0 < x1 \<and> y0 < y1"
proof -
  have p: "\<And>v. polygon_bbox B v = Inr (Some (x0, y0, x1, y1)) \<Longrightarrow> x0 < x1 \<and> y0 < y1"
    by (auto dest: bbox_from_points_valid split: if_splits)
  have b: "\<And>v. baseline_bbox B v = Inr (Some (x0, y0, x1, y1)) \<Longrightarrow> x0 < x1 \<and> y0 < y1"
    by (auto dest!: bbox_from_points_valid split: if_splits sum.splits option.splits)
  show ?thesis
    using assms p b explicit_bbox_valid[of B "bbox r" x0 y0 x1 y1]
    unfolding record_bbox_def
    by (auto split: option.splits sum.splits if_splits
        simp del: polygon_bbox.simps baseline_bbox.simps explicit_bbox.simps)
qed


theorem record_bbox_valid_witness:
  "record_bbox no_str_parse (box_line 10 20 110 60 ''ab'') = Inr (Some (10, 20, 110, 60))
   \<and> (10::int) < 110 \<and> (20::int) < 60"
  using record_bbox_valid [of no_str_parse "box_line 10 20 110 60 ''ab''" 10 20 110 60]
  by (simp add: record_bbox_box_line)

text \<open>
  Claim C4 fails on the code.  \<^verbatim>\<open>clamp_bbox\<close> is declared to return an optional box and
  its callers test the result, but it returns a tuple on every path.  A wide line that
  lies above the top edge of the page is split into two views whose clamped boxes have
  \<open>y0 = y1 = 0\<close>; on a page one pixel wide the left view gets \<open>x0 = x1 = 0\<close>.  Both
  boxes are attached to record views.
\<close>

theorem clamped_split_box_degenerate:
  "ocr_one no_str_parse [box_line 0 (- 40) 700 (- 10) ''AAAA    BBBB''] 800 600 TB_LR =
     Inr ([box_line 0 (- 40) 700 (- 10) ''AAAA    BBBB''],
          [\<lparr>idx = 0, rv_text = ''AAAA'', rv_bbox = Some (0, 0, 400, 0)\<rparr>,
           \<lparr>idx = 1, rv_text = ''BBBB'', rv_bbox = Some (400, 0, 800, 0)\<rparr>])
   \<and> clamp_bbox (0, - 40, 400, - 10) 800 600 = Some (0, 0, 400, 0)
   \<and> ocr_one no_str_parse [box_line 0 10 1 30 ''a  b''] 1 600 TB_LR =
     Inr ([box_line 0 10 1 30 ''a  b''],
          [\<lparr>idx = 0, rv_text = ''a'', rv_bbox = Some (0, 10, 0, 30)\<rparr>,
           \<lparr>idx = 1, rv_text = ''b'', rv_bbox = Some (0, 10, 1, 30)\<rparr>])"
  by (simp add: ocr_one_def sort_records_reading_order_def record_bbox_box_line Let_def
      prediction_box_line is_fullwidth_def TB_LR_def py_isspace_def line_views_def wide_line_split_def strip_def
      trunc_def floor_eq_iff)

section \<open>Properties of row grouping\<close>

lemma is_same_visual_row_sym: "is_same_visual_row a b pw = is_same_visual_row b a pw"
  by (auto simp: is_same_visual_row_def Let_def split: option.splits)

lemma is_same_visual_row_boxes:
  "rv_bbox a = Some (ax0, ay0, ax1, ay1) \<Longrightarrow> rv_bbox b = Some (bx0, by0, bx1, by1) \<Longrightarrow>
   is_same_visual_row a b pw \<longleftrightarrow>
     \<bar>ay0 - by0\<bar> \<le> 12
     \<and> \<not> ((ax1 < pw div 2 \<and> bx0 > pw div 2) \<or> (bx1 < pw div 2 \<and> ax0 > pw div 2))"
  by (auto simp: is_same_visual_row_def Let_def)

lemma place_row_inv:
  "place_row pw r rows = Some rows' \<Longrightarrow> row_inv pw rows \<Longrightarrow> row_inv pw rows'"
proof (induction rows arbitrary: rows')
  case Nil
  then show ?case by simp
next
  case (Cons row rows)
  show ?case
  proof (cases "is_same_visual_row (hd row) r pw")
    case True
    then have "rows' = (row @ [r]) # rows" using Cons.prems(1) by simp
    moreover have "row \<noteq> []" using Cons.prems(2) by (simp add: row_inv_def)
    ultimately show ?thesis using Cons.prems(2) True by (auto simp: row_inv_def)
  next
    case False
    then obtain rs where rs: "place_row pw r rows = Some rs" "rows' = row # rs"
      using Cons.prems(1) by auto
    have "row_inv pw rows" using Cons.prems(2) by (simp add: row_inv_def)
    then have "row_inv pw rs" using Cons.IH[OF rs(1)] by simp
    then show ?thesis using Cons.prems(2) by (simp add: rs(2) row_inv_def)
  qed
qed

lemma place_rows_inv: "row_inv pw rows \<Longrightarrow> row_inv pw (place_rows pw rs rows)"
proof (induction rs arbitrary: rows)
  case Nil
  then show ?case by simp
next
  case (Cons r rs)
  show ?case
  proof (cases "place_row pw r rows")
    case None
    have "row_inv pw (rows @ [[r]])" using Cons.prems by (auto simp: row_inv_def)
    then show ?thesis using Cons.IH None by simp
  next
    case (Some rows')
    then show ?thesis using Cons.IH place_row_inv[OF Some Cons.prems] by simp
  qed
qed

lemma place_rows_nonempty: "row \<in> set (place_rows pw rs []) \<Longrightarrow> row \<noteq> []"
  using place_rows_inv[of pw "[]" rs] by (simp add: row_inv_def)

text \<open>
  Claim C6, as amended.  In every row of the grid all lines are in the same visual row
  as the line the row was opened with: their top edges are within 12 px of its top edge
  and they are not on the other side of the page midline \<open>pw div 2\<close> from it (one box
  ending left of the midline, the other starting right of it).  For a page of two lines
  with boxes: they land in the same row when their top edges differ by at most 12 px
  and they are not on opposite sides of the midline; they land in different rows when
  they are on opposite sides of the midline, whatever their rows, or when their top
  edges differ by more than 12 px.
\<close>

theorem rows_follow_first_line:
  "(\<forall>row \<in> set (group_rows_by_y records pw).
       \<exists>rep rest. row = sort_key left_key (rep # rest)
          \<and> (\<forall>r \<in> set rest. is_same_visual_row rep r pw))
   \<and> (rv_bbox a = Some (ax0, ay0, ax1, ay1) \<and> rv_bbox b = Some (bx0, by0, bx1, by1)
        \<and> \<bar>ay0 - by0\<bar> \<le> 12
        \<and> \<not> ((ax1 < pw div 2 \<and> bx0 > pw div 2) \<or> (bx1 < pw div 2 \<and> ax0 > pw div 2))
      \<longrightarrow> (\<exists>row. group_rows_by_y [a, b] pw = [row] \<and> mset row = {#a, b#}))
   \<and> (rv_bbox a = Some (ax0, ay0, ax1, ay1) \<and> rv_bbox b = Some (bx0, by0, bx1, by1)
        \<and> (\<bar>ay0 - by0\<bar> > 12
            \<or> (ax1 < pw div 2 \<and> bx0 > pw div 2) \<or> (bx1 < pw div 2 \<and> ax0 > pw div 2))
      \<longrightarrow> group_rows_by_y [a, b] pw = [[a], [b]] \<or> group_rows_by_y [a, b] pw = [[b], [a]])"
proof (intro conjI impI ballI)
  fix row assume "row \<in> set (group_rows_by_y records pw)"
  then obtain row0 where row0:
    "row0 \<in> set (place_rows pw (sort_key top_left_key (filter (\<lambda>r. rv_bbox r \<noteq> None) records)) [])"
    "row = sort_key left_key row0"
    by (auto simp: group_rows_by_y_def Let_def)
  have inv: "row_inv pw (place_rows pw (sort_key top_left_key (filter (\<lambda>r. rv_bbox r \<noteq> None) records)) [])"
    by (rule place_rows_inv) (simp add: row_inv_def)
  then have ne: "row0 \<noteq> []" and comp: "\<forall>r \<in> set (tl row0). is_same_visual_row (hd row0) r pw"
    using row0(1) by (auto simp: row_inv_def)
  have "row0 = hd row0 # tl row0" using ne by simp
  then have "row = sort_key left_key (hd row0 # tl row0)" using row0(2) by simp
  then show "\<exists>rep rest. row = sort_key left_key (rep # rest)
          \<and> (\<forall>r \<in> set rest. is_same_visual_row rep r pw)"
    using comp by blast
next
  assume h: "rv_bbox a = Some (ax0, ay0, ax1, ay1) \<and> rv_bbox b = Some (bx0, by0, bx1, by1)
        \<and> \<bar>ay0 - by0\<bar> \<le> 12
        \<and> \<not> ((ax1 < pw div 2 \<and> bx0 > pw div 2) \<or> (bx1 < pw div 2 \<and> ax0 > pw div 2))"
  then have ab: "is_same_visual_row a b pw"
    using is_same_visual_row_boxes[of a ax0 ay0 ax1 ay1 b bx0 by0 bx1 by1 pw] by blast
  then have ba: "is_same_visual_row b a pw" by (simp add: is_same_visual_row_sym)
  show "\<exists>row. group_rows_by_y [a, b] pw = [row] \<and> mset row = {#a, b#}"
    using h ab ba by (auto simp: group_rows_by_y_def Let_def)
next
  assume h: "rv_bbox a = Some (ax0, ay0, ax1, ay1) \<and> rv_bbox b = Some (bx0, by0, bx1, by1)
        \<and> (\<bar>ay0 - by0\<bar> > 12
            \<or> (ax1 < pw div 2 \<and> bx0 > pw div 2) \<or> (bx1 < pw div 2 \<and> ax0 > pw div 2))"
  then have ab: "\<not> is_same_visual_row a b pw"
    using is_same_visual_row_boxes[of a ax0 ay0 ax1 ay1 b bx0 by0 bx1 by1 pw] by auto
  then have ba: "\<not> is_same_visual_row b a pw" by (simp add: is_same_visual_row_sym)
  show "group_rows_by_y [a, b] pw = [[a], [b]] \<or> group_rows_by_y [a, b] pw = [[b], [a]]"
    using h ab ba by (auto simp: group_rows_by_y_def Let_def)
qed

theorem rows_follow_first_line_witness:
  "group_rows_by_y [\<lparr>idx = 0, rv_text = ''a'', rv_bbox = Some (200, 5, 300, 25)\<rparr>,
                    \<lparr>idx = 1, rv_text = ''b'', rv_bbox = Some (10, 0, 100, 20)\<rparr>] 1000
     = [[\<lparr>idx = 1, rv_text = ''b'', rv_bbox = Some (10, 0, 100, 20)\<rparr>,
         \<lparr>idx = 0, rv_text = ''a'', rv_bbox = Some (200, 5, 300, 25)\<rparr>]]
   \<and> group_rows_by_y [\<lparr>idx = 0, rv_text = ''a'', rv_bbox = Some (10, 0, 100, 20)\<rparr>,
                      \<lparr>idx = 1, rv_text = ''b'', rv_bbox = Some (600, 0, 900, 20)\<rparr>] 1000
     = [[\<lparr>idx = 0, rv_text = ''a'', rv_bbox = Some (10, 0, 100, 20)\<rparr>],
        [\<lparr>idx = 1, rv_text = ''b'', rv_bbox = Some (600, 0, 900, 20)\<rparr>]]"
  using rows_follow_first_line [where
      a = "\<lparr>idx = 0, rv_text = ''a'', rv_bbox = Some (200, 5, 300, 25)\<rparr>"
      and b = "\<lparr>idx = 1, rv_text = ''b'', rv_bbox = Some (10, 0, 100, 20)\<rparr>"
      and pw = 1000 and records = "[]"
      and ?ax0.0 = 200 and ?ay0.0 = 5 and ?ax1.0 = 300 and ?ay1.0 = 25
      and ?bx0.0 = 10 and ?by0.0 = 0 and ?bx1.0 = 100 and ?by1.0 = 20]
    rows_follow_first_line [where
      a = "\<lparr>idx = 0, rv_text = ''a'', rv_bbox = Some (10, 0, 100, 20)\<rparr>"
      and b = "\<lparr>idx = 1, rv_text = ''b'', rv_bbox = Some (600, 0, 900, 20)\<rparr>"
      and pw = 1000 and records = "[]"
      and ?ax0.0 = 10 and ?ay0.0 = 0 and ?ax1.0 = 100 and ?ay1.0 = 20
      and ?bx0.0 = 600 and ?by0.0 = 0 and ?bx1.0 = 900 and ?by1.0 = 20]
  by (simp add: group_rows_by_y_def Let_def top_left_key_def left_key_def is_same_visual_row_def)

text \<open>
  The claim as stated puts two lines of one side in the same row when they overlap by
  more than half their height, and two lines of opposite sides with the same \<open>y\<close> in
  different rows.  Two lines of height 100 whose tops are 20 px apart overlap by 80 px
  and get a row each; a line on the left and a line on the right, both at \<open>y = 0\<close>,
  join the row opened by a full-width line at \<open>y = 0\<close>.
\<close>

theorem rows_overlap_counterexample:
  "group_rows_by_y [\<lparr>idx = 0, rv_text = ''a'', rv_bbox = Some (0, 0, 100, 100)\<rparr>,
                    \<lparr>idx = 1, rv_text = ''b'', rv_bbox = Some (0, 20, 100, 120)\<rparr>] 1000
     = [[\<lparr>idx = 0, rv_text = ''a'', rv_bbox = Some (0, 0, 100, 100)\<rparr>],
        [\<lparr>idx = 1, rv_text = ''b'', rv_bbox = Some (0, 20, 100, 120)\<rparr>]]
   \<and> group_rows_by_y [\<lparr>idx = 0, rv_text = ''h'', rv_bbox = Some (0, 0, 1000, 20)\<rparr>,
                      \<lparr>idx = 1, rv_text = ''a'', rv_bbox = Some (10, 0, 100, 20)\<rparr>,
                      \<lparr>idx = 2, rv_text = ''b'', rv_bbox = Some (600, 0, 900, 20)\<rparr>] 1000
     = [[\<lparr>idx = 0, rv_text = ''h'', rv_bbox = Some (0, 0, 1000, 20)\<rparr>,
         \<lparr>idx = 1, rv_text = ''a'', rv_bbox = Some (10, 0, 100, 20)\<rparr>,
         \<lparr>idx = 2, rv_text = ''b'', rv_bbox = Some (600, 0, 900, 20)\<rparr>]]"
  by (simp add: group_rows_by_y_def Let_def top_left_key_def left_key_def is_same_visual_row_def)


lemma place_row_members:
  "place_row pw r rows = Some rows' \<Longrightarrow> mset (concat rows') = add_mset r (mset (concat rows))"
proof (induction rows arbitrary: rows')
  case Nil
  then show ?case by simp
next
  case (Cons row rows)
  show ?case
  proof (cases "is_same_visual_row (hd row) r pw")
    case True
    then show ?thesis using Cons.prems by auto
  next
    case False
    then obtain rs where rs: "place_row pw r rows = Some rs" "rows' = row # rs"
      using Cons.prems by auto
    show ?thesis using Cons.IH[OF rs(1)] by (simp add: rs(2))
  qed
qed

lemma place_rows_members:
  "mset (concat (place_rows pw rs rows)) = mset rs + mset (concat rows)"
proof (induction rs arbitrary: rows)
  case Nil
  then show ?case by simp
next
  case (Cons r rs)
  show ?case
  proof (cases "place_row pw r rows")
    case None
    then show ?thesis using Cons.IH[of "rows @ [[r]]"] by simp
  next
    case (Some rows')
    then show ?thesis using Cons.IH[of rows'] place_row_members[OF Some] by simp
  qed
qed

lemma mset_concat_map_sort:
  "mset (concat (map (sort_key f) rows)) = mset (concat rows)"
  by (induction rows) simp_all

text \<open>
  Row grouping keeps every line that has a box exactly once and no other line.
\<close>

theorem group_rows_keeps_boxed_lines:
  "mset (concat (group_rows_by_y records pw)) = mset (filter (\<lambda>r. rv_bbox r \<noteq> None) records)"
  by (simp add: group_rows_by_y_def Let_def mset_concat_map_sort place_rows_members
      del: mset_filter)


end
